theory Spec2Isabelle
  imports Main "HOL-Library.Word"
begin

unbundle bit_operations_syntax

section \<open>The EFS filesystem registry (efs/src/fs/fs.c)\<close>

text \<open>
  The file keeps one process-wide list of filesystem nodes (\<open>fs_list\<close>) and drives
  three stores that live outside it: the namespace store (\<open>ns_create\<close>,
  \<open>ns_delete\<close>, \<open>ns_scan\<close>), the metadata tree (\<open>kvtree_create\<close>,
  \<open>kvtree_delete\<close>, \<open>efs_tree_create_root\<close>, \<open>efs_tree_delete_root\<close>) and the
  tenant store (\<open>tenant_create\<close>, \<open>tenant_delete\<close>, \<open>tenant_scan\<close>).
  The embedding passes the list around as an explicit state, takes what the outside
  calls return from an environment record, and writes every early exit of the C code
  as a branch.

  Two macros the file uses are declared outside it. \<open>RC_WRAP_LABEL(rc, label, f, ...)\<close>
  assigns \<open>rc = f(...)\<close> and jumps to \<open>label\<close> when \<open>rc != 0\<close>. \<open>dassert(c)\<close> is an
  assertion that a build may compile out; the environment says whether it is in.
\<close>

subsection \<open>Return codes\<close>

text \<open>The values of \<open>errno.h\<close> on Linux; the functions return them negated.\<close>

definition ENOENT :: int where [simp]: "ENOENT = 2"
definition EIO :: int where [simp]: "EIO = 5"
definition ENOMEM :: int where [simp]: "ENOMEM = 12"
definition EEXIST :: int where [simp]: "EEXIST = 17"
definition EINVAL :: int where [simp]: "EINVAL = 22"
definition ENOTEMPTY :: int where [simp]: "ENOTEMPTY = 39"

subsection \<open>Data\<close>

text \<open>
  Modelled from the spec: \<open>str256_t\<close> and \<open>str256_cmp\<close> are declared outside this
  file (``bounded string, at most 255 bytes, explicit length prefix''). The code only
  tests \<open>str256_cmp(a, b) == 0\<close>, which holds exactly for equal strings.
\<close>

type_synonym str256 = string

definition str256_valid :: "str256 \<Rightarrow> bool" where
  "str256_valid s = (length s \<le> 255)"

definition str256_cmp :: "str256 \<Rightarrow> str256 \<Rightarrow> int" where
  "str256_cmp a b = (if a = b then 0 else 1)"

text \<open>\<open>struct namespace\<close>: the durable identity of one filesystem (16-bit id, name).\<close>

record namespace =
  ns_id :: "16 word"
  ns_name :: str256

text \<open>\<open>struct tenant\<close>: one persisted export record (name, namespace id, options).\<close>

record tenant =
  tenant_name :: str256
  tenant_ns_id :: "16 word"
  tenant_info :: string

text \<open>\<open>struct stat\<close>, the fields \<open>efs_fs_create\<close> sets for the root directory.\<close>

record stat =
  st_mode :: "32 word"
  st_ino :: nat
  st_nlink :: nat
  st_uid :: nat
  st_gid :: nat
  st_atim :: nat
  st_mtim :: nat
  st_ctim :: nat

definition S_IFDIR :: "32 word" where
  "S_IFDIR = 16384"

text \<open>
  Modelled from the spec: the macro \<open>EFS_ROOT_INODE\<close> is declared outside this file
  (``a well-known root inode number''); no property below depends on its value.
\<close>

definition EFS_ROOT_INODE :: nat where
  "EFS_ROOT_INODE = 2"

text \<open>
  Modelled from the spec: \<open>struct kvtree\<close> is declared in \<open>kvtree.h\<close>, outside this
  file. The handle stands for the metadata tree of one namespace: the namespace it
  belongs to, the root record it was created with, and the entries other than the
  root (``tree has no children'' is the emptiness the spec asks \<open>delete\<close> to check).
\<close>

record kvtree =
  kvt_ns :: namespace
  kvt_root :: stat
  kvt_children :: "str256 list"

text \<open>
  \<open>struct efs_fs\<close>. The three fields are pointers; \<open>ns\<close> is never \<open>NULL\<close> in a node
  that is on the list (a node is only linked after its namespace copy is made), the
  other two are \<open>NULL\<close> or point to an object.
\<close>

record efs_fs =
  ns :: namespace
  tenant :: "tenant option"
  kvtree :: "kvtree option"

text \<open>Blocks this file obtains from \<open>malloc\<close>, named by the filesystem they are for.\<close>

datatype block = Fs_node str256 | Ns_copy str256

text \<open>
  The steps a function performs, in program order: its calls into the stores, its
  updates of the list, and the \<open>free\<close> of a tenant object (which the tenant store
  allocated).
\<close>

datatype step =
    Call_ns_create str256
  | Call_kvtree_create str256
  | Call_tree_create_root str256
  | List_insert str256
  | Call_tree_delete_root str256
  | Call_kvtree_delete str256
  | List_remove str256
  | Call_ns_delete str256
  | Call_tenant_create str256
  | Call_tenant_delete str256
  | Free_tenant str256

text \<open>
  The state: \<open>fs_list\<close> (the head of the C list is the head of the HOL list; a
  pointer to a node is its position), the blocks allocated here and not yet freed,
  and the steps performed so far.
\<close>

record state =
  fs_list :: "efs_fs list"
  allocated :: "block list"
  trace :: "step list"

definition initial_state :: state where
  "initial_state = \<lparr>fs_list = [], allocated = [], trace = []\<rparr>"

text \<open>
  The environment: what the code outside this file answers. Every function of this
  file calls each outside function at most once, so one answer per argument is enough;
  two calls of functions of this file may be given two environments.
\<close>

record env =
  malloc_ok :: "block \<Rightarrow> bool"
  ns_create_rc :: "str256 \<Rightarrow> int"
  ns_create_id :: "str256 \<Rightarrow> 16 word"
  kvtree_create :: "namespace \<Rightarrow> stat \<Rightarrow> int \<times> kvtree"
  efs_tree_create_root :: "efs_fs \<Rightarrow> int"
  efs_tree_delete_root :: "efs_fs \<Rightarrow> int"
  kvtree_delete :: "kvtree option \<Rightarrow> int"
  ns_delete :: "namespace \<Rightarrow> int"
  tenant_create_rc :: "str256 \<Rightarrow> 16 word \<Rightarrow> string \<Rightarrow> int"
  tenant_delete :: "tenant \<Rightarrow> int"
  ns_scan_items :: "namespace list"
  ns_scan_rc :: int
  tenant_scan_items :: "tenant option list"
  tenant_scan_rc :: int
  dassert_enabled :: bool
  junk_tenant :: "tenant option"

text \<open>
  A function either returns or halts the process: \<open>dassert\<close> aborts when it is
  compiled in and its condition fails, and a write through a null pointer faults.
\<close>

datatype halt = Assertion_failed | Null_dereference

datatype 'a outcome = Return 'a | Halt halt

subsection \<open>Small helpers of the state\<close>

definition log_step :: "step \<Rightarrow> state \<Rightarrow> state" where
  "log_step x s = s\<lparr>trace := trace s @ [x]\<rparr>"

definition malloc_block :: "block \<Rightarrow> state \<Rightarrow> state" where
  "malloc_block b s = s\<lparr>allocated := b # allocated s\<rparr>"

definition free_block :: "block \<Rightarrow> state \<Rightarrow> state" where
  "free_block b s = s\<lparr>allocated := remove1 b (allocated s)\<rparr>"

text \<open>\<open>LIST_REMOVE\<close> of the node at position \<open>i\<close>.\<close>

definition list_remove :: "nat \<Rightarrow> 'a list \<Rightarrow> 'a list" where
  "list_remove i xs = take i xs @ drop (Suc i) xs"

definition fs_names :: "state \<Rightarrow> str256 list" where
  "fs_names s = map (\<lambda>n. ns_name (ns n)) (fs_list s)"

subsection \<open>Accessors\<close>

text \<open>
  Modelled from the spec: \<open>ns_get_name\<close>, \<open>ns_get_id\<close> and \<open>tenant_get_name\<close>,
  \<open>tenant_get_info\<close> are accessors of the namespace and tenant stores
  (\<open>get_name(NamespaceIdentity) -> name\<close>, \<open>get_info(TenantRecord) -> OpaqueInfo\<close>).
  The \<open>dassert(fs)\<close> of \<open>efs_get_ns_id\<close>, \<open>efs_fs_get_name\<close> and
  \<open>efs_fs_endpoint_info\<close> holds at every call made here: the argument is a node.
\<close>

definition ns_get_name :: "namespace \<Rightarrow> str256" where
  "ns_get_name n = ns_name n"

definition ns_get_id :: "namespace \<Rightarrow> 16 word" where
  "ns_get_id n = ns_id n"

definition tenant_get_name :: "tenant \<Rightarrow> str256" where
  "tenant_get_name t = tenant_name t"

definition tenant_get_info :: "tenant \<Rightarrow> string" where
  "tenant_get_info t = tenant_info t"

definition efs_get_ns_id :: "efs_fs \<Rightarrow> 16 word" where
  "efs_get_ns_id fs = ns_get_id (ns fs)"

definition efs_fs_get_name :: "efs_fs \<Rightarrow> str256" where
  "efs_fs_get_name fs = ns_get_name (ns fs)"

definition efs_fs_endpoint_info :: "efs_fs \<Rightarrow> string option" where
  "efs_fs_endpoint_info fs =
     (case tenant fs of None \<Rightarrow> None | Some t \<Rightarrow> Some (tenant_get_info t))"

subsection \<open>efs_fs_is_empty and efs_fs_lookup\<close>

text \<open>The body is \<open>return 0\<close>; the \<open>-ENOTEMPTY\<close> return is commented out.\<close>

definition efs_fs_is_empty :: "efs_fs \<Rightarrow> int" where
  "efs_fs_is_empty fs = 0"

text \<open>The \<open>LIST_FOREACH\<close> loop: the position of the first node with the name.\<close>

fun fs_list_find :: "str256 \<Rightarrow> efs_fs list \<Rightarrow> nat option" where
  "fs_list_find name [] = None"
| "fs_list_find name (n # rest) =
     (if str256_cmp name (ns_get_name (ns n)) = 0 then Some 0
      else map_option Suc (fs_list_find name rest))"

text \<open>
  The return code and the node found. A caller that passes \<open>fs == NULL\<close> only reads
  the return code.
\<close>

definition efs_fs_lookup :: "str256 \<Rightarrow> state \<Rightarrow> int \<times> nat option" where
  "efs_fs_lookup name s =
     (case fs_list_find name (fs_list s) of
        None \<Rightarrow> (- ENOENT, None)
      | Some i \<Rightarrow> (0, Some i))"

subsection \<open>Startup and shutdown\<close>

text \<open>
  \<open>fs_ns_scan_cb\<close>: both allocations are checked and a failure returns without
  linking anything. The \<open>tenant\<close> field of the new node is not assigned, so it holds
  what the allocator left there (\<open>junk_tenant\<close>).
\<close>

definition fs_ns_scan_cb :: "env \<Rightarrow> namespace \<Rightarrow> state \<Rightarrow> state" where
  "fs_ns_scan_cb e n s =
     (if \<not> malloc_ok e (Fs_node (ns_name n)) then s
      else
        let s1 = malloc_block (Fs_node (ns_name n)) s in
        if \<not> malloc_ok e (Ns_copy (ns_name n)) then free_block (Fs_node (ns_name n)) s1
        else
          let s2 = malloc_block (Ns_copy (ns_name n)) s1;
              node = \<lparr>ns = n, tenant = junk_tenant e, kvtree = None\<rparr>
          in log_step (List_insert (ns_name n)) (s2\<lparr>fs_list := node # fs_list s2\<rparr>))"

text \<open>
  Modelled from the spec: \<open>ns_scan\<close> is outside this file
  (\<open>enumerate() -> stream of (NamespaceIdentity, size)\<close>). It calls the callback on
  each namespace it enumerates, in turn, and returns the store's own return code.
\<close>

definition ns_scan :: "env \<Rightarrow> (namespace \<Rightarrow> state \<Rightarrow> state) \<Rightarrow> state \<Rightarrow> int \<times> state" where
  "ns_scan e cb s = (ns_scan_rc e, foldl (\<lambda>s' n. cb n s') s (ns_scan_items e))"

definition efs_fs_init :: "env \<Rightarrow> state \<Rightarrow> int \<times> state" where
  "efs_fs_init e s = ns_scan e (fs_ns_scan_cb e) s"

text \<open>
  \<open>endpoint_tenant_scan_cb\<close>. After a failed lookup \<open>fs\<close> is \<open>NULL\<close>: \<open>dassert(rc == 0)\<close>
  aborts when assertions are compiled in; otherwise \<open>container_of(fs, ...)\<close> is the
  null pointer (\<open>efs_fs\<close> is the first member of the node) and the assignment to its
  \<open>tenant\<close> field faults.
\<close>

definition endpoint_tenant_scan_cb :: "env \<Rightarrow> tenant option \<Rightarrow> state \<Rightarrow> (int \<times> state) outcome" where
  "endpoint_tenant_scan_cb e tn s =
     (case tn of
        None \<Rightarrow> Return (- ENOENT, s)
      | Some t \<Rightarrow>
          (case efs_fs_lookup (tenant_get_name t) s of (rc, fs) \<Rightarrow>
             if rc \<noteq> 0 \<and> dassert_enabled e then Halt Assertion_failed
             else
               (case fs of
                  None \<Rightarrow> Halt Null_dereference
                | Some i \<Rightarrow>
                    Return (rc, s\<lparr>fs_list := (fs_list s)[i := (fs_list s ! i)\<lparr>tenant := Some t\<rparr>]\<rparr>))))"

text \<open>
  Modelled from the spec: \<open>tenant_scan\<close> is outside this file
  (\<open>enumerate() -> stream of TenantRecord\<close>). It hands each record to the callback,
  stops at the first callback that does not return 0 and returns that code; when
  every callback returned 0 it returns the store's own return code.
\<close>

fun tenant_scan_loop ::
  "(tenant option \<Rightarrow> state \<Rightarrow> (int \<times> state) outcome) \<Rightarrow> int \<Rightarrow> tenant option list \<Rightarrow> state
     \<Rightarrow> (int \<times> state) outcome" where
  "tenant_scan_loop cb rc0 [] s = Return (rc0, s)"
| "tenant_scan_loop cb rc0 (t # ts) s =
     (case cb t s of
        Halt h \<Rightarrow> Halt h
      | Return (rc, s') \<Rightarrow> if rc \<noteq> 0 then Return (rc, s') else tenant_scan_loop cb rc0 ts s')"

definition tenant_scan ::
  "env \<Rightarrow> (tenant option \<Rightarrow> state \<Rightarrow> (int \<times> state) outcome) \<Rightarrow> state \<Rightarrow> (int \<times> state) outcome" where
  "tenant_scan e cb s = tenant_scan_loop cb (tenant_scan_rc e) (tenant_scan_items e) s"

definition efs_endpoint_init :: "env \<Rightarrow> state \<Rightarrow> (int \<times> state) outcome" where
  "efs_endpoint_init e s = tenant_scan e (endpoint_tenant_scan_cb e) s"

definition efs_endpoint_fini :: "state \<Rightarrow> int \<times> state" where
  "efs_endpoint_fini s = (0, s\<lparr>fs_list := map (\<lambda>n. n\<lparr>tenant := None\<rparr>) (fs_list s)\<rparr>)"

text \<open>The loop of \<open>efs_fs_fini\<close>: unlink the head node, free its namespace copy and itself.\<close>

fun fs_fini_loop :: "efs_fs list \<Rightarrow> state \<Rightarrow> state" where
  "fs_fini_loop [] s = s"
| "fs_fini_loop (n # rest) s =
     fs_fini_loop rest
       (free_block (Fs_node (ns_name (ns n)))
         (free_block (Ns_copy (ns_name (ns n)))
           (log_step (List_remove (ns_name (ns n))) (s\<lparr>fs_list := rest\<rparr>))))"

definition efs_fs_fini :: "state \<Rightarrow> int \<times> state" where
  "efs_fs_fini s =
     (case efs_endpoint_fini s of (rc, s1) \<Rightarrow>
        if rc \<noteq> 0 then (rc, s1) else (rc, fs_fini_loop (fs_list s1) s1))"

subsection \<open>efs_fs_create\<close>

text \<open>
  Modelled from the spec: \<open>ns_create\<close> is outside this file
  (\<open>allocate(name) -> (NamespaceIdentity, size)\<close>). The namespace it hands back carries
  the name it was asked for; the id and the return code are the store's.
\<close>

definition ns_create :: "env \<Rightarrow> str256 \<Rightarrow> int \<times> namespace" where
  "ns_create e name = (ns_create_rc e name, \<lparr>ns_id = ns_create_id e name, ns_name = name\<rparr>)"

definition root_stat :: stat where
  "root_stat =
     \<lparr>st_mode = S_IFDIR OR 511, st_ino = EFS_ROOT_INODE, st_nlink = 2, st_uid = 0, st_gid = 0,
      st_atim = 0, st_mtim = 0, st_ctim = 0\<rparr>"

text \<open>
  The labels of the C function are the branches here: \<open>out\<close> returns, \<open>free_fs_node\<close>
  frees the node and returns, \<open>free_info\<close> links the node when \<open>rc == 0\<close> and falls
  into \<open>free_fs_node\<close> otherwise. The result of the second \<open>malloc\<close> is not checked:
  \<open>memcpy\<close> into a null pointer faults.
\<close>

definition efs_fs_create :: "env \<Rightarrow> str256 \<Rightarrow> state \<Rightarrow> (int \<times> state) outcome" where
  "efs_fs_create e fs_name s =
     (if fst (efs_fs_lookup fs_name s) = 0 then Return (- EEXIST, s)
      else if \<not> malloc_ok e (Fs_node fs_name) then Return (- ENOMEM, s)
      else
        let s1 = malloc_block (Fs_node fs_name) s in
        (case ns_create e fs_name of (rc, n) \<Rightarrow>
           let s2 = log_step (Call_ns_create fs_name) s1 in
           if rc \<noteq> 0 then Return (rc, free_block (Fs_node fs_name) s2)
           else if \<not> malloc_ok e (Ns_copy fs_name) then Halt Null_dereference
           else
             let s3 = malloc_block (Ns_copy fs_name) s2 in
             (case kvtree_create e n root_stat of (rc, kvt) \<Rightarrow>
                let s4 = log_step (Call_kvtree_create fs_name) s3 in
                if rc \<noteq> 0 then Return (rc, free_block (Fs_node fs_name) s4)
                else
                  let node = \<lparr>ns = n, tenant = None, kvtree = Some kvt\<rparr>;
                      rc = efs_tree_create_root e node;
                      s5 = log_step (Call_tree_create_root fs_name) s4
                  in
                    if rc = 0
                    then Return (rc, log_step (List_insert fs_name) (s5\<lparr>fs_list := node # fs_list s5\<rparr>))
                    else Return (rc, free_block (Fs_node fs_name) s5))))"

subsection \<open>Endpoints\<close>

text \<open>
  Modelled from the spec: \<open>tenant_create\<close> is outside this file
  (\<open>create(name, id, options) -> TenantRecord\<close>). The record it hands back holds the
  name, the namespace id and the options it was given; the return code is the store's.
\<close>

definition tenant_create :: "env \<Rightarrow> str256 \<Rightarrow> 16 word \<Rightarrow> string \<Rightarrow> int \<times> tenant" where
  "tenant_create e name nsid options =
     (tenant_create_rc e name nsid options,
      \<lparr>tenant_name = name, tenant_ns_id = nsid, tenant_info = options\<rparr>)"

definition efs_endpoint_create :: "env \<Rightarrow> str256 \<Rightarrow> string \<Rightarrow> state \<Rightarrow> int \<times> state" where
  "efs_endpoint_create e endpoint_name endpoint_options s =
     (case efs_fs_lookup endpoint_name s of
        (rc, None) \<Rightarrow> (- ENOENT, s)
      | (rc, Some i) \<Rightarrow>
          if rc \<noteq> 0 then (- ENOENT, s)
          else
            let fs = fs_list s ! i in
            if tenant fs \<noteq> None then (- EEXIST, s)
            else
              let nsid = efs_get_ns_id fs in
              (case tenant_create e endpoint_name nsid endpoint_options of (rc, t) \<Rightarrow>
                 let s1 = log_step (Call_tenant_create endpoint_name) s in
                 if rc \<noteq> 0 then (rc, s1)
                 else (rc, s1\<lparr>fs_list := (fs_list s1)[i := fs\<lparr>tenant := Some t\<rparr>]\<rparr>)))"

definition efs_endpoint_delete :: "env \<Rightarrow> str256 \<Rightarrow> state \<Rightarrow> int \<times> state" where
  "efs_endpoint_delete e endpoint_name s =
     (case efs_fs_lookup endpoint_name s of
        (rc, None) \<Rightarrow> (- ENOENT, s)
      | (rc, Some i) \<Rightarrow>
          if rc \<noteq> 0 then (- ENOENT, s)
          else
            let fs = fs_list s ! i in
            (case tenant fs of
               None \<Rightarrow> (- ENOENT, s)
             | Some t \<Rightarrow>
                 let rc = tenant_delete e t;
                     s1 = log_step (Call_tenant_delete endpoint_name) s
                 in
                   if rc \<noteq> 0 then (rc, s1)
                   else
                     let s2 = log_step (Free_tenant endpoint_name) s1 in
                     (rc, s2\<lparr>fs_list := (fs_list s2)[i := fs\<lparr>tenant := None\<rparr>]\<rparr>)))"

subsection \<open>efs_fs_delete\<close>

text \<open>
  A failed lookup returns its own code (\<open>-ENOENT\<close>). After the two tree deletions
  the node is unlinked, and \<open>ns_delete\<close> is called on the node already off the list;
  the node and its namespace copy are not freed. The last assignment, \<open>fs->ns = NULL\<close>,
  is to that unlinked node, which no later call can reach.
\<close>

definition efs_fs_delete :: "env \<Rightarrow> str256 \<Rightarrow> state \<Rightarrow> int \<times> state" where
  "efs_fs_delete e fs_name s =
     (case efs_fs_lookup fs_name s of
        (rc, None) \<Rightarrow> (rc, s)
      | (rc, Some i) \<Rightarrow>
          if rc \<noteq> 0 then (rc, s)
          else
            let fs = fs_list s ! i in
            if tenant fs \<noteq> None then (- EINVAL, s)
            else
              let rc = efs_fs_is_empty fs in
              if rc \<noteq> 0 then (rc, s)
              else
                let rc = efs_tree_delete_root e fs;
                    s1 = log_step (Call_tree_delete_root fs_name) s
                in
                  if rc \<noteq> 0 then (rc, s1)
                  else
                    let rc = kvtree_delete e (kvtree fs);
                        s2 = log_step (Call_kvtree_delete fs_name) s1
                    in
                      if rc \<noteq> 0 then (rc, s2)
                      else
                        let s3 = s2\<lparr>fs_list := (fs_list s2)[i := fs\<lparr>kvtree := None\<rparr>]\<rparr>;
                            s4 = log_step (List_remove fs_name) (s3\<lparr>fs_list := list_remove i (fs_list s3)\<rparr>);
                            rc = ns_delete e (ns fs);
                            s5 = log_step (Call_ns_delete fs_name) s4
                        in (rc, s5))"

subsection \<open>The operations by name, and runs of operations\<close>

text \<open>
  The spec's \<open>endpoint_info(name)\<close>: \<open>efs_fs_lookup\<close>, then \<open>efs_fs_endpoint_info\<close> on
  the node found (as \<open>efs_fs_scan_list\<close> reads it for each node).
\<close>

definition endpoint_info :: "str256 \<Rightarrow> state \<Rightarrow> string option" where
  "endpoint_info name s =
     (case efs_fs_lookup name s of
        (rc, None) \<Rightarrow> None
      | (rc, Some i) \<Rightarrow> efs_fs_endpoint_info (fs_list s ! i))"


text \<open>Registry key uniqueness: no two nodes of the list carry the same name.\<close>

definition names_unique :: "state \<Rightarrow> bool" where
  "names_unique s = distinct (fs_names s)"

datatype op =
    Fs_init env
  | Endpoint_init env
  | Fs_create env str256
  | Fs_delete env str256
  | Endpoint_create env str256 string
  | Endpoint_delete env str256
  | Endpoint_fini
  | Fs_fini

fun apply_op :: "op \<Rightarrow> state \<Rightarrow> state outcome" where
  "apply_op (Fs_init e) s = Return (snd (efs_fs_init e s))"
| "apply_op (Endpoint_init e) s =
     (case efs_endpoint_init e s of Return (rc, s') \<Rightarrow> Return s' | Halt h \<Rightarrow> Halt h)"
| "apply_op (Fs_create e name) s =
     (case efs_fs_create e name s of Return (rc, s') \<Rightarrow> Return s' | Halt h \<Rightarrow> Halt h)"
| "apply_op (Fs_delete e name) s = Return (snd (efs_fs_delete e name s))"
| "apply_op (Endpoint_create e name options) s = Return (snd (efs_endpoint_create e name options s))"
| "apply_op (Endpoint_delete e name) s = Return (snd (efs_endpoint_delete e name s))"
| "apply_op Endpoint_fini s = Return (snd (efs_endpoint_fini s))"
| "apply_op Fs_fini s = Return (snd (efs_fs_fini s))"

fun run :: "op list \<Rightarrow> state \<Rightarrow> state outcome" where
  "run [] s = Return s"
| "run (x # xs) s = (case apply_op x s of Return s' \<Rightarrow> run xs s' | Halt h \<Rightarrow> Halt h)"

text \<open>
  What startup loading relies on: the namespaces the scan enumerates have pairwise
  different names, none of them on the list already.
\<close>

definition scan_names_fresh :: "env \<Rightarrow> state \<Rightarrow> bool" where
  "scan_names_fresh e s =
     (distinct (map ns_name (ns_scan_items e)) \<and>
      (\<forall>n \<in> set (ns_scan_items e). ns_name n \<notin> set (fs_names s)))"

fun op_pre :: "op \<Rightarrow> state \<Rightarrow> bool" where
  "op_pre (Fs_init e) s = scan_names_fresh e s"
| "op_pre x s = True"

fun run_pre :: "op list \<Rightarrow> state \<Rightarrow> bool" where
  "run_pre [] s = True"
| "run_pre (x # xs) s =
     (op_pre x s \<and> (case apply_op x s of Return s' \<Rightarrow> run_pre xs s' | Halt h \<Rightarrow> True))"

subsection \<open>Example environments and states\<close>

text \<open>An environment in which every outside call succeeds.\<close>

definition env_ok :: env where
  "env_ok =
     \<lparr>malloc_ok = (\<lambda>b. True),
      ns_create_rc = (\<lambda>name. 0),
      ns_create_id = (\<lambda>name. 1),
      kvtree_create = (\<lambda>n st. (0, \<lparr>kvt_ns = n, kvt_root = st, kvt_children = []\<rparr>)),
      efs_tree_create_root = (\<lambda>fs. 0),
      efs_tree_delete_root = (\<lambda>fs. 0),
      kvtree_delete = (\<lambda>t. 0),
      ns_delete = (\<lambda>n. 0),
      tenant_create_rc = (\<lambda>name nsid options. 0),
      tenant_delete = (\<lambda>t. 0),
      ns_scan_items = [],
      ns_scan_rc = 0,
      tenant_scan_items = [],
      tenant_scan_rc = 0,
      dassert_enabled = True,
      junk_tenant = None\<rparr>"

definition tank_ns :: namespace where
  "tank_ns = \<lparr>ns_id = 1, ns_name = ''tank''\<rparr>"

definition tank_tree :: kvtree where
  "tank_tree = \<lparr>kvt_ns = tank_ns, kvt_root = root_stat, kvt_children = []\<rparr>"

definition tank_fs :: efs_fs where
  "tank_fs = \<lparr>ns = tank_ns, tenant = None, kvtree = Some tank_tree\<rparr>"

text \<open>The state after \<open>efs_fs_create("tank")\<close> on the empty registry.\<close>

definition tank_state :: state where
  "tank_state =
     \<lparr>fs_list = [tank_fs],
      allocated = [Ns_copy ''tank'', Fs_node ''tank''],
      trace = [Call_ns_create ''tank'', Call_kvtree_create ''tank'',
               Call_tree_create_root ''tank'', List_insert ''tank'']\<rparr>"

definition tank_tenant :: tenant where
  "tank_tenant = \<lparr>tenant_name = ''tank'', tenant_ns_id = 1, tenant_info = ''ro''\<rparr>"

text \<open>The state after \<open>efs_endpoint_create("tank", "ro")\<close> on \<open>tank_state\<close>.\<close>

definition tank_exported :: state where
  "tank_exported =
     tank_state
       \<lparr>fs_list := [tank_fs\<lparr>tenant := Some tank_tenant\<rparr>],
        trace := trace tank_state @ [Call_tenant_create ''tank'']\<rparr>"

text \<open>The state after \<open>efs_endpoint_delete("tank")\<close> on \<open>tank_exported\<close>.\<close>

definition tank_unexported :: state where
  "tank_unexported =
     tank_state
       \<lparr>trace := trace tank_state @
          [Call_tenant_create ''tank'', Call_tenant_delete ''tank'', Free_tenant ''tank'']\<rparr>"

text \<open>\<open>tank_state\<close> with one file under the root of the tree.\<close>

definition tank_busy :: state where
  "tank_busy =
     tank_state\<lparr>fs_list := [tank_fs\<lparr>kvtree := Some (tank_tree\<lparr>kvt_children := [''file'']\<rparr>)\<rparr>]\<rparr>"

text \<open>Environments in which exactly one outside call fails with \<open>-EIO\<close>.\<close>

definition env_kvtree_create_fails :: env where
  "env_kvtree_create_fails = env_ok\<lparr>kvtree_create := (\<lambda>n st. (- EIO, tank_tree))\<rparr>"

definition env_ns_delete_fails :: env where
  "env_ns_delete_fails = env_ok\<lparr>ns_delete := (\<lambda>n. - EIO)\<rparr>"

definition env_tenant_delete_fails :: env where
  "env_tenant_delete_fails = env_ok\<lparr>tenant_delete := (\<lambda>t. - EIO)\<rparr>"

text \<open>A namespace store that enumerates two namespaces, of ids 1 and 2, with one name.\<close>

definition env_scan_twice :: env where
  "env_scan_twice = env_ok\<lparr>ns_scan_items := [tank_ns, tank_ns\<lparr>ns_id := 2\<rparr>]\<rparr>"

text \<open>A namespace store with one namespace, and a tenant store with one record.\<close>

definition env_scan_tank :: env where
  "env_scan_tank = env_ok\<lparr>ns_scan_items := [tank_ns], tenant_scan_items := [Some tank_tenant]\<rparr>"

text \<open>The state after \<open>efs_fs_init\<close> with that namespace store on the empty registry.\<close>

definition tank_loaded :: state where
  "tank_loaded =
     \<lparr>fs_list = [\<lparr>ns = tank_ns, tenant = None, kvtree = None\<rparr>],
      allocated = [Ns_copy ''tank'', Fs_node ''tank''],
      trace = [List_insert ''tank'']\<rparr>"

text \<open>The state after \<open>efs_endpoint_init\<close> with that tenant store on \<open>tank_loaded\<close>.\<close>

definition tank_attached :: state where
  "tank_attached =
     tank_loaded\<lparr>fs_list := [\<lparr>ns = tank_ns, tenant = Some tank_tenant, kvtree = None\<rparr>]\<rparr>"

text \<open>
  Startup with an allocator whose fresh blocks are not zeroed: the \<open>tenant\<close> field
  of a loaded node, which \<open>fs_ns_scan_cb\<close> does not assign, reads as a pointer to some
  object. The tenant store holds no record.
\<close>

definition junk_obj :: tenant where
  "junk_obj = \<lparr>tenant_name = ''junk'', tenant_ns_id = 0, tenant_info = ''junk''\<rparr>"

definition env_scan_junk :: env where
  "env_scan_junk = env_ok\<lparr>ns_scan_items := [tank_ns], junk_tenant := Some junk_obj\<rparr>"

text \<open>The state after \<open>efs_fs_init\<close> and \<open>efs_endpoint_init\<close> of that startup.\<close>

definition tank_loaded_junk :: state where
  "tank_loaded_junk =
     tank_loaded\<lparr>fs_list := [\<lparr>ns = tank_ns, tenant = Some junk_obj, kvtree = None\<rparr>]\<rparr>"

section \<open>Properties\<close>

subsection \<open>Facts about the lookup\<close>

lemma fs_list_find_Some_less: "fs_list_find name xs = Some i \<Longrightarrow> i < length xs"
  by (induction xs arbitrary: i) (auto split: if_splits)


lemma fs_list_find_None_iff:
  "fs_list_find name xs = None \<longleftrightarrow> name \<notin> set (map (\<lambda>n. ns_name (ns n)) xs)"
  by (induction xs) (auto simp: str256_cmp_def ns_get_name_def)

lemmas state_defs = malloc_block_def log_step_def free_block_def

lemmas accessor_defs = str256_cmp_def ns_get_name_def ns_get_id_def tenant_get_name_def
  tenant_get_info_def efs_get_ns_id_def efs_fs_get_name_def efs_fs_endpoint_info_def

lemmas example_defs = initial_state_def env_ok_def tank_ns_def tank_tree_def tank_fs_def
  tank_state_def tank_tenant_def tank_exported_def tank_unexported_def tank_busy_def
  env_kvtree_create_fails_def
  env_ns_delete_fails_def env_tenant_delete_fails_def env_scan_twice_def env_scan_tank_def
  tank_loaded_def tank_attached_def junk_obj_def env_scan_junk_def tank_loaded_junk_def

lemma efs_fs_lookup_Some:
  "efs_fs_lookup name s = (rc, Some i) \<longleftrightarrow> rc = 0 \<and> fs_list_find name (fs_list s) = Some i"
  by (auto simp: efs_fs_lookup_def split: option.splits)

lemma efs_fs_lookup_None:
  "efs_fs_lookup name s = (rc, None) \<longleftrightarrow> rc = - ENOENT \<and> fs_list_find name (fs_list s) = None"
  by (auto simp: efs_fs_lookup_def split: option.splits)

lemma efs_fs_lookup_registered:
  "name \<in> set (fs_names s) \<Longrightarrow> \<exists>i. efs_fs_lookup name s = (0, Some i)"
  by (cases "fs_list_find name (fs_list s)")
     (simp_all add: efs_fs_lookup_def fs_list_find_None_iff fs_names_def)

subsection \<open>The example states are states of the code\<close>

lemma create_tank: "efs_fs_create env_ok ''tank'' initial_state = Return (0, tank_state)"
  by (simp add: efs_fs_create_def efs_fs_lookup_def ns_create_def state_defs example_defs)

lemma export_tank: "efs_endpoint_create env_ok ''tank'' ''ro'' tank_state = (0, tank_exported)"
  by (simp add: efs_endpoint_create_def efs_fs_lookup_def tenant_create_def state_defs
      accessor_defs example_defs)

lemma lookup_tank_state: "efs_fs_lookup ''tank'' tank_state = (0, Some 0)"
  by (simp add: efs_fs_lookup_def example_defs accessor_defs)

lemma lookup_tank_exported: "efs_fs_lookup ''tank'' tank_exported = (0, Some 0)"
  by (simp add: efs_fs_lookup_def example_defs accessor_defs)

lemma unexport_tank: "efs_endpoint_delete env_ok ''tank'' tank_exported = (0, tank_unexported)"
  by (simp add: efs_endpoint_delete_def efs_fs_lookup_def state_defs accessor_defs example_defs)

lemma lookup_tank_busy: "efs_fs_lookup ''tank'' tank_busy = (0, Some 0)"
  by (simp add: efs_fs_lookup_def example_defs accessor_defs)



lemma init_tank_junk: "efs_fs_init env_scan_junk initial_state = (0, tank_loaded_junk)"
  by (simp add: efs_fs_init_def ns_scan_def fs_ns_scan_cb_def state_defs example_defs)

lemma endpoint_init_tank_junk:
  "efs_endpoint_init env_scan_junk tank_loaded_junk = Return (0, tank_loaded_junk)"
  by (simp add: efs_endpoint_init_def tenant_scan_def example_defs)

subsection \<open>Facts about the single operations\<close>

lemma efs_fs_create_Return_0:
  assumes "efs_fs_create e name s = Return (0, s')"
  shows "\<exists>node. ns_name (ns node) = name \<and> tenant node = None \<and>
           fs_list s' = node # fs_list s \<and> name \<notin> set (fs_names s)"
  using assms
  by (auto simp: efs_fs_create_def efs_fs_lookup_def ns_create_def state_defs Let_def
      fs_list_find_None_iff fs_names_def
      split: if_splits prod.splits option.splits)

lemma efs_fs_create_succeeds:
  assumes "name \<notin> set (fs_names s)"
    and "malloc_ok e (Fs_node name)" and "malloc_ok e (Ns_copy name)"
    and "ns_create_rc e name = 0"
    and "\<And>n st. fst (kvtree_create e n st) = 0"
    and "\<And>fs. efs_tree_create_root e fs = 0"
  shows "\<exists>s'. efs_fs_create e name s = Return (0, s')"
proof -
  have f: "fs_list_find name (fs_list s) = None"
    using assms(1) by (simp add: fs_list_find_None_iff fs_names_def)
  have k: "\<And>n st. kvtree_create e n st = (0, snd (kvtree_create e n st))"
    using assms(5) by (simp add: prod_eq_iff)
  show ?thesis
    using f assms(2-4) assms(6)
    by (simp add: efs_fs_create_def efs_fs_lookup_def ns_create_def Let_def
        split: prod.splits) (metis k prod.inject)
qed

lemma fs_list_find_update_tenant:
  "fs_list_find name (xs[i := (xs ! i)\<lparr>tenant := t\<rparr>]) = fs_list_find name xs"
proof (induction xs arbitrary: i)
  case Nil
  then show ?case by simp
next
  case (Cons x xs)
  then show ?case by (cases i) simp_all
qed

lemma list_remove_update: "list_remove i (xs[i := y]) = list_remove i xs"
  by (simp add: list_remove_def)

subsection \<open>Creating a name that exists\<close>

text \<open>
  Claim C4. For every name already on the list, \<open>efs_fs_create\<close> returns \<open>-EEXIST\<close>
  (AlreadyExists) and the state after the call is the state before it: the list, the
  allocated blocks and the calls made to the stores are all unchanged, so no second
  node is inserted and nothing is allocated.
\<close>

theorem efs_fs_create_existing:
  assumes "name \<in> set (fs_names s)"
  shows "efs_fs_create e name s = Return (- EEXIST, s)"
proof -
  from assms obtain i where "efs_fs_lookup name s = (0, Some i)"
    using efs_fs_lookup_registered by blast
  then show ?thesis by (simp add: efs_fs_create_def)
qed

theorem efs_fs_create_existing_witness:
  "''tank'' \<in> set (fs_names tank_state) \<and>
   efs_fs_create env_ok ''tank'' tank_state = Return (- EEXIST, tank_state)"
proof -
  have h: "''tank'' \<in> set (fs_names tank_state)"
    by (simp add: fs_names_def example_defs)
  show ?thesis using h efs_fs_create_existing [OF h, of env_ok] by simp
qed

subsection \<open>Deleting an exported filesystem\<close>

text \<open>
  Claim C5. When the node found for the name has a tenant attached, \<open>efs_fs_delete\<close>
  returns \<open>-EINVAL\<close> (InvalidState) and leaves the state as it was: afterwards the
  lookup of the name still finds the same node and the same tenant is still attached.
\<close>

theorem efs_fs_delete_exported:
  assumes "efs_fs_lookup name s = (0, Some i)"
    and "tenant (fs_list s ! i) = Some t"
  shows "efs_fs_delete e name s = (- EINVAL, s) \<and>
         efs_fs_lookup name (snd (efs_fs_delete e name s)) = (0, Some i) \<and>
         tenant (fs_list (snd (efs_fs_delete e name s)) ! i) = Some t"
proof -
  have "efs_fs_delete e name s = (- EINVAL, s)"
    using assms by (simp add: efs_fs_delete_def)
  with assms show ?thesis by simp
qed

theorem efs_fs_delete_exported_witness:
  "efs_fs_lookup ''tank'' tank_exported = (0, Some 0) \<and>
   tenant (fs_list tank_exported ! 0) = Some tank_tenant \<and>
   efs_fs_delete env_ok ''tank'' tank_exported = (- EINVAL, tank_exported)"
proof -
  have t: "tenant (fs_list tank_exported ! 0) = Some tank_tenant"
    by (simp add: example_defs)
  show ?thesis
    using efs_fs_delete_exported [OF lookup_tank_exported t, of env_ok] lookup_tank_exported t
    by simp
qed

subsection \<open>A tenant store that refuses to delete\<close>

text \<open>
  Claim C10. When \<open>tenant_delete\<close> returns an error, \<open>efs_endpoint_delete\<close> returns that
  very code and changes nothing but the record of the call it made: the list is the
  same, the tenant is still attached to the node, and \<open>endpoint_info\<close> of the name
  still gives the info of that tenant.
\<close>

theorem efs_endpoint_delete_backend_error:
  assumes "efs_fs_lookup name s = (0, Some i)"
    and "tenant (fs_list s ! i) = Some t"
    and "tenant_delete e t \<noteq> 0"
  shows "efs_endpoint_delete e name s =
           (tenant_delete e t, s\<lparr>trace := trace s @ [Call_tenant_delete name]\<rparr>) \<and>
         fs_list (snd (efs_endpoint_delete e name s)) = fs_list s \<and>
         endpoint_info name (snd (efs_endpoint_delete e name s)) = Some (tenant_get_info t)"
proof -
  have r: "efs_endpoint_delete e name s =
      (tenant_delete e t, s\<lparr>trace := trace s @ [Call_tenant_delete name]\<rparr>)"
    using assms by (simp add: efs_endpoint_delete_def log_step_def)
  have l: "efs_fs_lookup name (s\<lparr>trace := trace s @ [Call_tenant_delete name]\<rparr>) = (0, Some i)"
    using assms(1) by (simp add: efs_fs_lookup_def)
  show ?thesis
    using r l assms(2) by (simp add: endpoint_info_def efs_fs_endpoint_info_def)
qed

theorem efs_endpoint_delete_backend_error_witness:
  "efs_fs_lookup ''tank'' tank_exported = (0, Some 0) \<and>
   tenant (fs_list tank_exported ! 0) = Some tank_tenant \<and>
   tenant_delete env_tenant_delete_fails tank_tenant = - EIO \<and>
   efs_endpoint_delete env_tenant_delete_fails ''tank'' tank_exported =
     (- EIO, tank_exported\<lparr>trace := trace tank_exported @ [Call_tenant_delete ''tank'']\<rparr>) \<and>
   endpoint_info ''tank''
     (snd (efs_endpoint_delete env_tenant_delete_fails ''tank'' tank_exported)) = Some ''ro''"
proof -
  have t: "tenant (fs_list tank_exported ! 0) = Some tank_tenant"
    by (simp add: example_defs)
  have d: "tenant_delete env_tenant_delete_fails tank_tenant = - EIO"
    by (simp add: example_defs)
  have n: "tenant_delete env_tenant_delete_fails tank_tenant \<noteq> 0"
    by (simp add: d)
  have i: "tenant_get_info tank_tenant = ''ro''"
    by (simp add: tenant_get_info_def tank_tenant_def)
  note r = efs_endpoint_delete_backend_error [OF lookup_tank_exported t n]
  have a: "efs_endpoint_delete env_tenant_delete_fails ''tank'' tank_exported =
     (- EIO, tank_exported\<lparr>trace := trace tank_exported @ [Call_tenant_delete ''tank'']\<rparr>)"
    using r [THEN conjunct1] by (simp only: d)
  have b: "endpoint_info ''tank''
     (snd (efs_endpoint_delete env_tenant_delete_fails ''tank'' tank_exported)) = Some ''ro''"
    using r [THEN conjunct2, THEN conjunct2] by (simp only: i)
  from lookup_tank_exported t d a b show ?thesis by blast
qed

subsection \<open>Creating, then looking up\<close>

text \<open>
  Claim C7. For every name that is not on the list (of any length, so every valid
  name), when the allocator and the stores let the create through, \<open>efs_fs_create\<close>
  returns 0 and links the new node at the head of the list; the lookup of the name in
  the state it leaves then succeeds, finds that node, and the name of the node is the
  name created; the lookup of any other name answers as before, one position further
  down the list. The hypotheses are the claim's own condition on the name and the
  answers of the outside calls; none is on what \<open>efs_fs_create\<close> or \<open>efs_fs_lookup\<close>
  returns.
\<close>

theorem efs_fs_create_then_lookup:
  assumes "name \<notin> set (fs_names s)"
    and "malloc_ok e (Fs_node name)" and "malloc_ok e (Ns_copy name)"
    and "ns_create_rc e name = 0"
    and "fst (kvtree_create e (snd (ns_create e name)) root_stat) = 0"
    and "efs_tree_create_root e
           \<lparr>ns = snd (ns_create e name), tenant = None,
            kvtree = Some (snd (kvtree_create e (snd (ns_create e name)) root_stat))\<rparr> = 0"
  shows "\<exists>s'. efs_fs_create e name s = Return (0, s') \<and>
           fs_list s' =
             \<lparr>ns = snd (ns_create e name), tenant = None,
              kvtree = Some (snd (kvtree_create e (snd (ns_create e name)) root_stat))\<rparr> # fs_list s \<and>
           efs_fs_lookup name s' = (0, Some 0) \<and>
           efs_fs_get_name (fs_list s' ! 0) = name \<and>
           (\<forall>m. efs_fs_lookup m s' =
              (if m = name then (0, Some 0)
               else (fst (efs_fs_lookup m s), map_option Suc (snd (efs_fs_lookup m s)))))"
proof -
  have f: "fs_list_find name (fs_list s) = None"
    using assms(1) by (simp add: fs_list_find_None_iff fs_names_def)
  obtain kvt where k: "kvtree_create e (snd (ns_create e name)) root_stat = (0, kvt)"
    using assms(5) by (cases "kvtree_create e (snd (ns_create e name)) root_stat") simp
  let ?node = "\<lparr>ns = snd (ns_create e name), tenant = None, kvtree = Some kvt\<rparr>"
  let ?s' = "log_step (List_insert name)
      ((log_step (Call_tree_create_root name)
         (log_step (Call_kvtree_create name)
           (malloc_block (Ns_copy name)
             (log_step (Call_ns_create name) (malloc_block (Fs_node name) s)))))
       \<lparr>fs_list := ?node # fs_list s\<rparr>)"
  have r: "efs_tree_create_root e ?node = 0"
    using assms(6) k by simp
  have n: "snd (ns_create e name) = \<lparr>ns_id = ns_create_id e name, ns_name = name\<rparr>"
    by (simp add: ns_create_def)
  have c: "efs_fs_create e name s = Return (0, ?s')"
    using f assms(2-4) k r
    by (simp add: efs_fs_create_def efs_fs_lookup_def ns_create_def state_defs Let_def)
  have l: "fs_list ?s' = ?node # fs_list s"
    by (simp add: state_defs)
  have "fs_list_find name (fs_list ?s') = Some 0"
    unfolding l by (simp add: n accessor_defs)
  then have lk: "efs_fs_lookup name ?s' = (0, Some 0)"
    by (simp add: efs_fs_lookup_def)
  have g: "efs_fs_get_name (fs_list ?s' ! 0) = name"
    unfolding l by (simp add: n accessor_defs)
  have o: "efs_fs_lookup m ?s' =
      (if m = name then (0, Some 0)
       else (fst (efs_fs_lookup m s), map_option Suc (snd (efs_fs_lookup m s))))" for m
  proof -
    have "fs_list_find m (fs_list ?s') =
        (if m = name then Some 0 else map_option Suc (fs_list_find m (fs_list s)))"
      unfolding l by (simp add: n accessor_defs)
    then show ?thesis
      by (simp add: efs_fs_lookup_def split: option.splits)
  qed
  from c l lk g o k show ?thesis by auto
qed

theorem efs_fs_create_then_lookup_witness:
  "str256_valid ''pool'' \<and> fs_names tank_state = [''tank''] \<and>
   (\<exists>s'. efs_fs_create env_ok ''pool'' tank_state = Return (0, s') \<and>
         efs_fs_lookup ''pool'' s' = (0, Some 0) \<and>
         efs_fs_get_name (fs_list s' ! 0) = ''pool'' \<and>
         efs_fs_lookup ''tank'' s' = (0, Some 1) \<and>
         fs_names s' = [''pool'', ''tank''])"
proof -
  have v: "str256_valid ''pool''" by (simp add: str256_valid_def)
  have t: "fs_names tank_state = [''tank'']"
    by (simp add: fs_names_def example_defs)
  have f: "''pool'' \<notin> set (fs_names tank_state)"
    by (simp add: t)
  have m1: "malloc_ok env_ok (Fs_node ''pool'')" and m2: "malloc_ok env_ok (Ns_copy ''pool'')"
    and n: "ns_create_rc env_ok ''pool'' = 0"
    and k: "fst (kvtree_create env_ok (snd (ns_create env_ok ''pool'')) root_stat) = 0"
    and r: "efs_tree_create_root env_ok
           \<lparr>ns = snd (ns_create env_ok ''pool''), tenant = None,
            kvtree = Some (snd (kvtree_create env_ok (snd (ns_create env_ok ''pool'')) root_stat))\<rparr> = 0"
    by (simp_all add: env_ok_def)
  from efs_fs_create_then_lookup [OF f m1 m2 n k r] obtain s' where
    c: "efs_fs_create env_ok ''pool'' tank_state = Return (0, s')"
    and l: "fs_list s' =
             \<lparr>ns = snd (ns_create env_ok ''pool''), tenant = None,
              kvtree = Some (snd (kvtree_create env_ok (snd (ns_create env_ok ''pool'')) root_stat))\<rparr>
             # fs_list tank_state"
    and lk: "efs_fs_lookup ''pool'' s' = (0, Some 0)"
    and g: "efs_fs_get_name (fs_list s' ! 0) = ''pool''"
    and o: "\<forall>m. efs_fs_lookup m s' =
              (if m = ''pool'' then (0, Some 0)
               else (fst (efs_fs_lookup m tank_state),
                     map_option Suc (snd (efs_fs_lookup m tank_state))))"
    by blast
  have k1: "efs_fs_lookup ''tank'' s' = (0, Some 1)"
    using o [THEN spec, of "''tank''"] by (simp add: lookup_tank_state)
  have "fs_names s' = ''pool'' # fs_names tank_state"
    using l by (simp add: fs_names_def ns_create_def)
  then have "fs_names s' = [''pool'', ''tank'']"
    by (simp add: t)
  with v t c lk g k1 show ?thesis by blast
qed

subsection \<open>Creating and deleting an endpoint\<close>

text \<open>
  On a node whose \<open>tenant\<close> field is \<open>NULL\<close>, with a tenant store that lets both
  calls through: \<open>efs_endpoint_create\<close> attaches the new record to the node the lookup
  found and to no other, \<open>efs_endpoint_delete\<close> detaches it again, the state after the
  two is the state before them but for the calls made, \<open>endpoint_info\<close> is absent and
  a further \<open>efs_endpoint_delete\<close> returns \<open>-ENOENT\<close>.
\<close>

lemma efs_endpoint_create_result:
  assumes "efs_fs_lookup name s = (0, Some i)"
    and "tenant (fs_list s ! i) = None"
    and "tenant_create_rc e name (efs_get_ns_id (fs_list s ! i)) options = 0"
  shows "efs_endpoint_create e name options s =
           (0, s\<lparr>fs_list := (fs_list s)
                   [i := (fs_list s ! i)
                      \<lparr>tenant := Some \<lparr>tenant_name = name,
                                        tenant_ns_id = efs_get_ns_id (fs_list s ! i),
                                        tenant_info = options\<rparr>\<rparr>],
                 trace := trace s @ [Call_tenant_create name]\<rparr>)"
  using assms by (simp add: efs_endpoint_create_def tenant_create_def log_step_def Let_def)

lemma efs_endpoint_delete_result:
  assumes "efs_fs_lookup name s = (0, Some i)"
    and "tenant (fs_list s ! i) = Some t"
    and "tenant_delete e t = 0"
  shows "efs_endpoint_delete e name s =
           (0, s\<lparr>fs_list := (fs_list s)[i := (fs_list s ! i)\<lparr>tenant := None\<rparr>],
                 trace := trace s @ [Call_tenant_delete name, Free_tenant name]\<rparr>)"
  using assms by (simp add: efs_endpoint_delete_def log_step_def Let_def)

lemma efs_endpoint_create_delete_roundtrip:
  assumes "efs_fs_lookup name s = (0, Some i)"
    and "tenant (fs_list s ! i) = None"
    and "tenant_create_rc e1 name (efs_get_ns_id (fs_list s ! i)) options = 0"
    and "tenant_delete e2 \<lparr>tenant_name = name, tenant_ns_id = efs_get_ns_id (fs_list s ! i),
                           tenant_info = options\<rparr> = 0"
  shows "efs_endpoint_delete e2 name (snd (efs_endpoint_create e1 name options s)) =
           (0, s\<lparr>trace := trace s @
                   [Call_tenant_create name, Call_tenant_delete name, Free_tenant name]\<rparr>) \<and>
         endpoint_info name
           (snd (efs_endpoint_delete e2 name (snd (efs_endpoint_create e1 name options s)))) = None \<and>
         efs_endpoint_delete e3 name
           (snd (efs_endpoint_delete e2 name (snd (efs_endpoint_create e1 name options s)))) =
           (- ENOENT,
            snd (efs_endpoint_delete e2 name (snd (efs_endpoint_create e1 name options s))))"
proof -
  let ?t = "\<lparr>tenant_name = name, tenant_ns_id = efs_get_ns_id (fs_list s ! i),
             tenant_info = options\<rparr>"
  let ?s1 = "s\<lparr>fs_list := (fs_list s)[i := (fs_list s ! i)\<lparr>tenant := Some ?t\<rparr>],
               trace := trace s @ [Call_tenant_create name]\<rparr>"
  let ?s2 = "s\<lparr>trace := trace s @
      [Call_tenant_create name, Call_tenant_delete name, Free_tenant name]\<rparr>"
  have f: "fs_list_find name (fs_list s) = Some i"
    using assms(1) by (simp add: efs_fs_lookup_Some)
  have len: "i < length (fs_list s)"
    using f by (rule fs_list_find_Some_less)
  have c: "efs_endpoint_create e1 name options s = (0, ?s1)"
    using efs_endpoint_create_result [OF assms(1-3)] .
  have l1: "efs_fs_lookup name ?s1 = (0, Some i)"
    using f by (simp add: efs_fs_lookup_def fs_list_find_update_tenant)
  have t1: "tenant (fs_list ?s1 ! i) = Some ?t"
    using len by simp
  have "efs_endpoint_delete e2 name ?s1 =
      (0, ?s1\<lparr>fs_list := (fs_list ?s1)[i := (fs_list ?s1 ! i)\<lparr>tenant := None\<rparr>],
               trace := trace ?s1 @ [Call_tenant_delete name, Free_tenant name]\<rparr>)"
    using efs_endpoint_delete_result [OF l1 t1 assms(4)] .
  also have "?s1\<lparr>fs_list := (fs_list ?s1)[i := (fs_list ?s1 ! i)\<lparr>tenant := None\<rparr>],
               trace := trace ?s1 @ [Call_tenant_delete name, Free_tenant name]\<rparr> = ?s2"
    using len assms(2) by (simp add: list_update_same_conv)
  finally have d: "efs_endpoint_delete e2 name ?s1 = (0, ?s2)" .
  have l2: "efs_fs_lookup name ?s2 = (0, Some i)"
    using f by (simp add: efs_fs_lookup_def)
  have t2: "tenant (fs_list ?s2 ! i) = None"
    using assms(2) by simp
  have i2: "endpoint_info name ?s2 = None"
    using l2 t2 by (simp add: endpoint_info_def efs_fs_endpoint_info_def)
  have d2: "efs_endpoint_delete e3 name ?s2 = (- ENOENT, ?s2)"
    using l2 t2 by (simp add: efs_endpoint_delete_def)
  show ?thesis
    unfolding c snd_conv d by (intro conjI refl i2 d2)
qed

text \<open>
  Claim C8 asks that \<open>endpoint_delete\<close> fail with \<open>-ENOENT\<close> (NotFound) on a
  filesystem that never had a binding, and that create-then-delete work on every
  registered filesystem with no binding. A filesystem loaded at startup has its
  \<open>tenant\<close> field unassigned by \<open>fs_ns_scan_cb\<close>. With an allocator that leaves the
  field non-null and a tenant store that holds no record, the loaded filesystem
  \<open>tank\<close> never had a binding, yet \<open>efs_endpoint_delete("tank")\<close> passes the
  \<open>tenant == NULL\<close> test, hands the stray pointer to \<open>tenant_delete\<close> and returns what
  the store returns (0 here); \<open>efs_endpoint_create("tank")\<close> returns \<open>-EEXIST\<close>, and
  \<open>endpoint_info\<close> is not absent.
\<close>

theorem efs_endpoint_delete_never_bound:
  "efs_fs_init env_scan_junk initial_state = (0, tank_loaded_junk) \<and>
   tenant_scan_items env_scan_junk = [] \<and>
   efs_endpoint_init env_scan_junk tank_loaded_junk = Return (0, tank_loaded_junk) \<and>
   efs_fs_lookup ''tank'' tank_loaded_junk = (0, Some 0) \<and>
   efs_endpoint_delete env_ok ''tank'' tank_loaded_junk =
     (0, tank_loaded
           \<lparr>trace := trace tank_loaded @ [Call_tenant_delete ''tank'', Free_tenant ''tank'']\<rparr>) \<and>
   efs_endpoint_create env_ok ''tank'' ''ro'' tank_loaded_junk = (- EEXIST, tank_loaded_junk) \<and>
   endpoint_info ''tank'' tank_loaded_junk = Some ''junk''"
proof (intro conjI)
  show "efs_fs_init env_scan_junk initial_state = (0, tank_loaded_junk)"
    by (rule init_tank_junk)
  show "tenant_scan_items env_scan_junk = []"
    by (simp add: example_defs)
  show "efs_endpoint_init env_scan_junk tank_loaded_junk = Return (0, tank_loaded_junk)"
    by (rule endpoint_init_tank_junk)
  show "efs_fs_lookup ''tank'' tank_loaded_junk = (0, Some 0)"
    by (simp add: efs_fs_lookup_def accessor_defs example_defs)
  show "efs_endpoint_delete env_ok ''tank'' tank_loaded_junk =
     (0, tank_loaded
           \<lparr>trace := trace tank_loaded @ [Call_tenant_delete ''tank'', Free_tenant ''tank'']\<rparr>)"
    by (simp add: efs_endpoint_delete_def efs_fs_lookup_def state_defs accessor_defs example_defs)
  show "efs_endpoint_create env_ok ''tank'' ''ro'' tank_loaded_junk = (- EEXIST, tank_loaded_junk)"
    by (simp add: efs_endpoint_create_def efs_fs_lookup_def state_defs accessor_defs example_defs)
  show "endpoint_info ''tank'' tank_loaded_junk = Some ''junk''"
    by (simp add: endpoint_info_def efs_fs_lookup_def accessor_defs example_defs)
qed

subsection \<open>The steps of a delete\<close>

text \<open>
  What \<open>efs_fs_delete\<close> does on a node whose \<open>tenant\<close> field is \<open>NULL\<close>, the emptiness
  check being the stub it is: it calls \<open>efs_tree_delete_root\<close>, then \<open>kvtree_delete\<close>,
  then unlinks the node, then calls \<open>ns_delete\<close>. When one of the first two calls
  fails, its code is returned and the list is unchanged; after them the node is
  unlinked whatever \<open>ns_delete\<close> returns.
\<close>

lemma efs_fs_delete_steps:
  assumes "efs_fs_lookup name s = (0, Some i)"
    and "tenant (fs_list s ! i) = None"
  shows
    "(efs_tree_delete_root e (fs_list s ! i) \<noteq> 0 \<longrightarrow>
        efs_fs_delete e name s =
          (efs_tree_delete_root e (fs_list s ! i),
           s\<lparr>trace := trace s @ [Call_tree_delete_root name]\<rparr>)) \<and>
     (efs_tree_delete_root e (fs_list s ! i) = 0 \<and>
      kvtree_delete e (kvtree (fs_list s ! i)) \<noteq> 0 \<longrightarrow>
        efs_fs_delete e name s =
          (kvtree_delete e (kvtree (fs_list s ! i)),
           s\<lparr>trace := trace s @ [Call_tree_delete_root name, Call_kvtree_delete name]\<rparr>)) \<and>
     (efs_tree_delete_root e (fs_list s ! i) = 0 \<and>
      kvtree_delete e (kvtree (fs_list s ! i)) = 0 \<longrightarrow>
        efs_fs_delete e name s =
          (ns_delete e (ns (fs_list s ! i)),
           s\<lparr>fs_list := list_remove i (fs_list s),
             trace := trace s @ [Call_tree_delete_root name, Call_kvtree_delete name,
                                 List_remove name, Call_ns_delete name]\<rparr>)) \<and>
     (fst (efs_fs_delete e name s) = 0 \<longrightarrow>
        efs_tree_delete_root e (fs_list s ! i) = 0 \<and>
        kvtree_delete e (kvtree (fs_list s ! i)) = 0 \<and>
        ns_delete e (ns (fs_list s ! i)) = 0)"
  using assms
  by (simp add: efs_fs_delete_def efs_fs_is_empty_def log_step_def Let_def list_remove_update)

text \<open>
  Claim C1 asks that the entry be removed only after the tree root, the tree and the
  namespace have all been deleted, so that a failure of any of the three leaves the
  entry on the list. On the registry holding \<open>tank\<close>, created by \<open>efs_fs_create\<close> and
  with no tenant, with \<open>ns_delete\<close> failing with \<open>-EIO\<close>: \<open>efs_fs_delete("tank")\<close>
  returns \<open>-EIO\<close>, the list is empty and the name is no longer found, because
  \<open>LIST_REMOVE\<close> runs before \<open>ns_delete\<close>.
\<close>

theorem efs_fs_delete_ns_delete_failure:
  "efs_fs_lookup ''tank'' tank_state = (0, Some 0) \<and>
   tenant (fs_list tank_state ! 0) = None \<and>
   ns_delete env_ns_delete_fails (ns (fs_list tank_state ! 0)) = - EIO \<and>
   fst (efs_fs_delete env_ns_delete_fails ''tank'' tank_state) = - EIO \<and>
   fs_list (snd (efs_fs_delete env_ns_delete_fails ''tank'' tank_state)) = [] \<and>
   efs_fs_lookup ''tank'' (snd (efs_fs_delete env_ns_delete_fails ''tank'' tank_state)) =
     (- ENOENT, None) \<and>
   trace (snd (efs_fs_delete env_ns_delete_fails ''tank'' tank_state)) =
     trace tank_state @ [Call_tree_delete_root ''tank'', Call_kvtree_delete ''tank'',
                         List_remove ''tank'', Call_ns_delete ''tank'']"
  by (simp add: efs_fs_delete_def efs_fs_lookup_def efs_fs_is_empty_def list_remove_def
      state_defs accessor_defs example_defs)

subsection \<open>A create that fails after the namespace is allocated\<close>

text \<open>
  What such a create leaves behind, in general: the list as it was, the node block
  freed, the block of the namespace copy still allocated, and no call to the stores
  after the one that failed.
\<close>

lemma efs_fs_create_failure_after_ns_create:
  assumes "name \<notin> set (fs_names s)"
    and "malloc_ok e (Fs_node name)" and "malloc_ok e (Ns_copy name)"
    and "ns_create_rc e name = 0"
    and "efs_fs_create e name s = Return (rc, s')" and "rc \<noteq> 0"
  shows "fs_list s' = fs_list s \<and> allocated s' = Ns_copy name # allocated s \<and>
     (trace s' = trace s @ [Call_ns_create name, Call_kvtree_create name] \<or>
      trace s' = trace s @ [Call_ns_create name, Call_kvtree_create name,
                            Call_tree_create_root name])"
proof -
  have f: "fs_list_find name (fs_list s) = None"
    using assms(1) by (simp add: fs_list_find_None_iff fs_names_def)
  show ?thesis
    using f assms(2-6)
    by (auto simp: efs_fs_create_def efs_fs_lookup_def ns_create_def state_defs Let_def
        split: prod.splits if_splits)
qed

text \<open>
  Claim C2 asks that a create failing after \<open>ns_create\<close> succeeded leaves no entry,
  releases every allocation and rolls the namespace back. On the empty registry, with
  \<open>ns_create\<close> succeeding and \<open>kvtree_create\<close> failing with \<open>-EIO\<close>,
  \<open>efs_fs_create("tank")\<close> returns \<open>-EIO\<close> with the list still empty; the node block
  is freed, the block of the namespace copy is still allocated, and the only calls
  made to the stores are \<open>ns_create\<close> and \<open>kvtree_create\<close>: no \<open>ns_delete\<close>.
\<close>

theorem efs_fs_create_kvtree_failure:
  "''tank'' \<notin> set (fs_names initial_state) \<and>
   fst (ns_create env_kvtree_create_fails ''tank'') = 0 \<and>
   efs_fs_create env_kvtree_create_fails ''tank'' initial_state =
     Return (- EIO,
       \<lparr>fs_list = [], allocated = [Ns_copy ''tank''],
        trace = [Call_ns_create ''tank'', Call_kvtree_create ''tank'']\<rparr>)"
  by (simp add: efs_fs_create_def efs_fs_lookup_def ns_create_def fs_names_def
      state_defs example_defs)

subsection \<open>The emptiness check\<close>

text \<open>
  \<open>efs_fs_is_empty\<close> returns 0 for every filesystem, so \<open>efs_fs_delete\<close> of a
  filesystem on the list with no tenant attached always goes on to call
  \<open>efs_tree_delete_root\<close>, whatever the tree holds, and the code it returns is the
  code of one of its three calls into the stores.
\<close>

lemma efs_fs_is_empty_stub:
  "efs_fs_is_empty fs = 0 \<and>
   (efs_fs_lookup name s = (0, Some i) \<and> tenant (fs_list s ! i) = None \<longrightarrow>
      Call_tree_delete_root name \<in> set (trace (snd (efs_fs_delete e name s))) \<and>
      fst (efs_fs_delete e name s) \<in>
        {efs_tree_delete_root e (fs_list s ! i), kvtree_delete e (kvtree (fs_list s ! i)),
         ns_delete e (ns (fs_list s ! i))})"
  by (simp add: efs_fs_delete_def efs_fs_is_empty_def log_step_def Let_def)

text \<open>
  Claim C6 asks that the delete of a filesystem holding entries other than its root
  fail with \<open>-ENOTEMPTY\<close> (NotEmpty), the emptiness check reporting non-empty exactly
  when the tree has children. In \<open>tank_busy\<close> the tree of \<open>tank\<close> holds a file:
  \<open>efs_fs_is_empty\<close> still returns 0, and with stores that let it the delete returns
  0 and the node is gone.
\<close>

theorem efs_fs_delete_not_empty:
  "kvtree (fs_list tank_busy ! 0) = Some (tank_tree\<lparr>kvt_children := [''file'']\<rparr>) \<and>
   efs_fs_is_empty (fs_list tank_busy ! 0) = 0 \<and>
   efs_fs_delete env_ok ''tank'' tank_busy =
     (0, tank_busy\<lparr>fs_list := [],
           trace := trace tank_busy @ [Call_tree_delete_root ''tank'', Call_kvtree_delete ''tank'',
                                       List_remove ''tank'', Call_ns_delete ''tank'']\<rparr>)"
  by (simp add: efs_fs_delete_def efs_fs_lookup_def efs_fs_is_empty_def list_remove_def
      state_defs accessor_defs example_defs)

subsection \<open>Endpoint loading at startup\<close>


lemma map_ns_update_tenant:
  "map ns (xs[i := (xs ! i)\<lparr>tenant := t\<rparr>]) = map ns xs"
proof (induction xs arbitrary: i)
  case Nil
  then show ?case by simp
next
  case (Cons x xs)
  then show ?case by (cases i) simp_all
qed

lemma endpoint_tenant_scan_cb_None:
  "endpoint_tenant_scan_cb e None s = Return (- ENOENT, s)"
  by (simp add: endpoint_tenant_scan_cb_def)

lemma endpoint_tenant_scan_cb_Some:
  "endpoint_tenant_scan_cb e (Some t) s =
     (case fs_list_find (tenant_name t) (fs_list s) of
        None \<Rightarrow> Halt (if dassert_enabled e then Assertion_failed else Null_dereference)
      | Some i \<Rightarrow>
          Return (0, s\<lparr>fs_list := (fs_list s)[i := (fs_list s ! i)\<lparr>tenant := Some t\<rparr>]\<rparr>))"
  by (simp add: endpoint_tenant_scan_cb_def efs_fs_lookup_def tenant_get_name_def
      split: option.splits)

lemma endpoint_tenant_scan_cb_Return:
  assumes "endpoint_tenant_scan_cb e r s = Return (rc, s1)"
  shows "(r = None \<and> rc = - ENOENT \<and> s1 = s) \<or>
         (\<exists>t i. r = Some t \<and> rc = 0 \<and> fs_list_find (tenant_name t) (fs_list s) = Some i \<and>
            s1 = s\<lparr>fs_list := (fs_list s)[i := (fs_list s ! i)\<lparr>tenant := Some t\<rparr>]\<rparr>)"
proof (cases r)
  case None
  with assms show ?thesis by (simp add: endpoint_tenant_scan_cb_None)
next
  case (Some t)
  with assms show ?thesis
    by (auto simp: endpoint_tenant_scan_cb_Some split: option.splits)
qed

lemma tenant_scan_loop_Cons:
  assumes "tenant_scan_loop cb rc0 (r # rs) s = Return (rc, s')"
  shows "(cb r s = Return (rc, s') \<and> rc \<noteq> 0) \<or>
         (\<exists>s1. cb r s = Return (0, s1) \<and> tenant_scan_loop cb rc0 rs s1 = Return (rc, s'))"
  using assms by (auto split: outcome.splits prod.splits if_splits)

lemma scan_loop_map_ns:
  "tenant_scan_loop (endpoint_tenant_scan_cb e) rc0 rs s = Return (rc, s') \<Longrightarrow>
     map ns (fs_list s') = map ns (fs_list s)"
proof (induction rs arbitrary: s)
  case Nil
  then show ?case by simp
next
  case (Cons r rs)
  from tenant_scan_loop_Cons [OF Cons.prems] show ?case
  proof
    assume "endpoint_tenant_scan_cb e r s = Return (rc, s') \<and> rc \<noteq> 0"
    then show ?thesis
      using endpoint_tenant_scan_cb_Return [of e r s rc s'] by auto
  next
    assume "\<exists>s1. endpoint_tenant_scan_cb e r s = Return (0, s1) \<and>
      tenant_scan_loop (endpoint_tenant_scan_cb e) rc0 rs s1 = Return (rc, s')"
    then obtain s1 where c: "endpoint_tenant_scan_cb e r s = Return (0, s1)"
      and l: "tenant_scan_loop (endpoint_tenant_scan_cb e) rc0 rs s1 = Return (rc, s')"
      by blast
    have "map ns (fs_list s1) = map ns (fs_list s)"
      using endpoint_tenant_scan_cb_Return [OF c] by (auto simp: map_ns_update_tenant)
    with Cons.IH [OF l] show ?thesis by simp
  qed
qed









subsection \<open>Uniqueness of the names on the list\<close>

lemma distinct_list_remove: "distinct xs \<Longrightarrow> distinct (list_remove i xs)"
  by (auto simp: list_remove_def set_take_disj_set_drop_if_distinct)

lemma map_list_remove: "map f (list_remove i xs) = list_remove i (map f xs)"
  by (simp add: list_remove_def take_map drop_map)

lemma fs_names_update_tenant:
  "fs_names (s\<lparr>fs_list := (fs_list s)[i := (fs_list s ! i)\<lparr>tenant := t\<rparr>]\<rparr>) = fs_names s"
proof -
  have "map ns ((fs_list s)[i := (fs_list s ! i)\<lparr>tenant := t\<rparr>]) = map ns (fs_list s)"
    by (rule map_ns_update_tenant)
  then have "map (ns_name \<circ> ns) ((fs_list s)[i := (fs_list s ! i)\<lparr>tenant := t\<rparr>]) =
      map (ns_name \<circ> ns) (fs_list s)"
    by (metis map_map)
  then show ?thesis by (simp add: fs_names_def comp_def)
qed

lemma fs_names_create:
  assumes "efs_fs_create e name s = Return (rc, s')"
  shows "fs_names s' = fs_names s \<or>
         (fs_names s' = name # fs_names s \<and> name \<notin> set (fs_names s))"
  using assms
  by (auto simp: efs_fs_create_def efs_fs_lookup_def ns_create_def state_defs Let_def
      fs_list_find_None_iff fs_names_def
      split: if_splits prod.splits option.splits)

lemma fs_names_delete:
  "fs_names (snd (efs_fs_delete e name s)) = fs_names s \<or>
   (\<exists>i. fs_names (snd (efs_fs_delete e name s)) = list_remove i (fs_names s))"
  by (auto simp: efs_fs_delete_def efs_fs_lookup_def efs_fs_is_empty_def log_step_def Let_def
      fs_names_def list_remove_update map_list_remove
      split: option.splits)

lemma fs_names_endpoint_create:
  "fs_names (snd (efs_endpoint_create e name options s)) = fs_names s"
proof (cases "fs_list_find name (fs_list s)")
  case None
  then show ?thesis by (simp add: efs_endpoint_create_def efs_fs_lookup_def)
next
  case (Some i)
  have "fs_names (log_step x s\<lparr>fs_list := (fs_list s)[i := (fs_list s ! i)\<lparr>tenant := t\<rparr>]\<rparr>) =
      fs_names s" for x t
    using fs_names_update_tenant [of s i t] by (simp add: fs_names_def log_step_def)
  with Some show ?thesis
    by (simp add: efs_endpoint_create_def efs_fs_lookup_def Let_def tenant_create_def
        log_step_def fs_names_def)
qed

lemma fs_names_endpoint_delete:
  "fs_names (snd (efs_endpoint_delete e name s)) = fs_names s"
proof (cases "fs_list_find name (fs_list s)")
  case None
  then show ?thesis by (simp add: efs_endpoint_delete_def efs_fs_lookup_def)
next
  case (Some i)
  have "fs_names (s\<lparr>fs_list := (fs_list s)[i := (fs_list s ! i)\<lparr>tenant := t\<rparr>]\<rparr>) = fs_names s" for t
    by (rule fs_names_update_tenant)
  with Some show ?thesis
    by (simp add: efs_endpoint_delete_def efs_fs_lookup_def Let_def
        log_step_def fs_names_def split: option.splits)
qed

lemma fs_names_endpoint_init:
  assumes "efs_endpoint_init e s = Return (rc, s')"
  shows "fs_names s' = fs_names s"
proof -
  have "map ns (fs_list s') = map ns (fs_list s)"
    using assms by (simp add: efs_endpoint_init_def tenant_scan_def scan_loop_map_ns)
  then have "map (ns_name \<circ> ns) (fs_list s') = map (ns_name \<circ> ns) (fs_list s)"
    by (metis map_map)
  then show ?thesis by (simp add: fs_names_def comp_def)
qed

lemma fs_names_endpoint_fini: "fs_names (snd (efs_endpoint_fini s)) = fs_names s"
  by (simp add: efs_endpoint_fini_def fs_names_def comp_def)

lemma fs_list_fini_loop: "fs_list (fs_fini_loop xs s) = (if xs = [] then fs_list s else [])"
  by (induction xs arbitrary: s) (auto simp: state_defs)

lemma fs_names_fs_fini: "fs_names (snd (efs_fs_fini s)) = []"
  by (simp add: efs_fs_fini_def efs_endpoint_fini_def fs_names_def fs_list_fini_loop)

lemma fs_names_scan_cb:
  "fs_names (fs_ns_scan_cb e n s) = fs_names s \<or>
   fs_names (fs_ns_scan_cb e n s) = ns_name n # fs_names s"
  by (simp add: fs_ns_scan_cb_def state_defs Let_def fs_names_def)

lemma names_unique_scan:
  "distinct (fs_names s) \<Longrightarrow> distinct (map ns_name items) \<Longrightarrow>
     \<forall>n \<in> set items. ns_name n \<notin> set (fs_names s) \<Longrightarrow>
     distinct (fs_names (foldl (\<lambda>s' n. fs_ns_scan_cb e n s') s items))"
proof (induction items arbitrary: s)
  case Nil
  then show ?case by simp
next
  case (Cons n items)
  let ?s1 = "fs_ns_scan_cb e n s"
  from fs_names_scan_cb [of e n s]
  have sub: "set (fs_names ?s1) \<subseteq> insert (ns_name n) (set (fs_names s))"
    by auto
  have d1: "distinct (fs_names ?s1)"
    using fs_names_scan_cb [of e n s] Cons.prems(1,3) by auto
  have d2: "distinct (map ns_name items)"
    using Cons.prems(2) by simp
  have f: "\<forall>m \<in> set items. ns_name m \<notin> set (fs_names ?s1)"
  proof
    fix m assume m: "m \<in> set items"
    then have "ns_name m \<in> ns_name ` set items"
      by (rule imageI)
    moreover have "ns_name n \<notin> ns_name ` set items"
      using Cons.prems(2) by simp
    ultimately have "ns_name m \<noteq> ns_name n"
      by metis
    moreover have "ns_name m \<notin> set (fs_names s)"
      using m Cons.prems(3) by simp
    ultimately show "ns_name m \<notin> set (fs_names ?s1)"
      using sub by auto
  qed
  from Cons.IH [OF d1 d2 f] show ?case by simp
qed

lemma names_unique_apply_op:
  assumes "names_unique s" and "op_pre x s" and "apply_op x s = Return s'"
  shows "names_unique s'"
proof (cases x)
  case (Fs_init e)
  with assms have d: "distinct (fs_names s)"
    and i: "distinct (map ns_name (ns_scan_items e))"
    and f: "\<forall>n \<in> set (ns_scan_items e). ns_name n \<notin> set (fs_names s)"
    and r: "s' = foldl (\<lambda>s' n. fs_ns_scan_cb e n s') s (ns_scan_items e)"
    by (auto simp: names_unique_def scan_names_fresh_def efs_fs_init_def ns_scan_def)
  from names_unique_scan [OF d i f] r show ?thesis
    by (simp add: names_unique_def)
next
  case (Endpoint_init e)
  with assms show ?thesis
    by (auto simp: names_unique_def fs_names_endpoint_init split: outcome.splits)
next
  case (Fs_create e name)
  with assms(3) obtain rc where "efs_fs_create e name s = Return (rc, s')"
    by (auto split: outcome.splits)
  from fs_names_create [OF this] assms(1) show ?thesis
    by (auto simp: names_unique_def)
next
  case (Fs_delete e name)
  with assms fs_names_delete [of e name s] show ?thesis
    by (auto simp: names_unique_def distinct_list_remove)
next
  case (Endpoint_create e name options)
  with assms show ?thesis
    by (auto simp: names_unique_def fs_names_endpoint_create)
next
  case (Endpoint_delete e name)
  with assms show ?thesis
    by (auto simp: names_unique_def fs_names_endpoint_delete)
next
  case Endpoint_fini
  with assms show ?thesis
    by (auto simp: names_unique_def fs_names_endpoint_fini)
next
  case Fs_fini
  with assms show ?thesis
    by (auto simp: names_unique_def fs_names_fs_fini)
qed

lemma names_unique_run_from:
  "names_unique s \<Longrightarrow> run_pre xs s \<Longrightarrow> run xs s = Return s' \<Longrightarrow> names_unique s'"
proof (induction xs arbitrary: s)
  case Nil
  then show ?case by simp
next
  case (Cons x xs)
  from Cons.prems(3) obtain s1 where a: "apply_op x s = Return s1" and r: "run xs s1 = Return s'"
    by (auto split: outcome.splits)
  have u: "names_unique s1"
    using names_unique_apply_op [OF Cons.prems(1) _ a] Cons.prems(2) by simp
  have p: "run_pre xs s1"
    using Cons.prems(2) a by simp
  from Cons.IH [OF u p r] show ?case .
qed

lemma names_unique_initial: "names_unique initial_state"
  by (simp add: names_unique_def fs_names_def initial_state_def)

lemmas op_defs = efs_fs_init_def ns_scan_def fs_ns_scan_cb_def efs_endpoint_init_def
  tenant_scan_def endpoint_tenant_scan_cb_def efs_fs_create_def ns_create_def efs_fs_lookup_def
  efs_fs_delete_def efs_fs_is_empty_def efs_endpoint_create_def tenant_create_def
  efs_endpoint_delete_def efs_endpoint_fini_def efs_fs_fini_def list_remove_def

text \<open>
  Claim C9, as the code has it. Every operation keeps the names on the list pairwise
  different, where startup loading is given a namespace store that enumerates
  pairwise different names, none of them on the list already (\<open>fs_ns_scan_cb\<close> links
  what it is handed without a lookup). So every state reached from the empty list by
  such operations has one node per name; and \<open>efs_fs_create\<close> of a name on the list
  returns \<open>-EEXIST\<close> and links nothing.
\<close>

theorem registry_names_unique:
  "(names_unique s \<and> op_pre x s \<and> apply_op x s = Return s1 \<longrightarrow> names_unique s1) \<and>
   (run_pre xs initial_state \<and> run xs initial_state = Return s' \<longrightarrow> names_unique s') \<and>
   (name \<in> set (fs_names s) \<longrightarrow> efs_fs_create e name s = Return (- EEXIST, s))"
proof (intro conjI impI)
  assume "names_unique s \<and> op_pre x s \<and> apply_op x s = Return s1"
  then show "names_unique s1"
    using names_unique_apply_op by blast
next
  assume "run_pre xs initial_state \<and> run xs initial_state = Return s'"
  then show "names_unique s'"
    using names_unique_run_from [OF names_unique_initial] by blast
next
  assume "name \<in> set (fs_names s)"
  then obtain i where "efs_fs_lookup name s = (0, Some i)"
    using efs_fs_lookup_registered by blast
  then show "efs_fs_create e name s = Return (- EEXIST, s)"
    by (simp add: efs_fs_create_def)
qed

theorem registry_names_unique_witness:
  "run_pre [Fs_init env_scan_tank, Endpoint_init env_scan_tank, Fs_create env_ok ''pool'',
            Fs_create env_ok ''pool'', Endpoint_delete env_ok ''tank'', Fs_delete env_ok ''tank'']
     initial_state \<and>
   (\<exists>s'. run [Fs_init env_scan_tank, Endpoint_init env_scan_tank, Fs_create env_ok ''pool'',
              Fs_create env_ok ''pool'', Endpoint_delete env_ok ''tank'', Fs_delete env_ok ''tank'']
          initial_state = Return s' \<and>
        fs_names s' = [''pool''] \<and> names_unique s') \<and>
   names_unique tank_state \<and>
   apply_op (Fs_create env_ok ''tank'') tank_state = Return tank_state \<and>
   ''tank'' \<in> set (fs_names tank_state) \<and>
   efs_fs_create env_ok ''tank'' tank_state = Return (- EEXIST, tank_state)"
proof -
  let ?ops = "[Fs_init env_scan_tank, Endpoint_init env_scan_tank, Fs_create env_ok ''pool'',
      Fs_create env_ok ''pool'', Endpoint_delete env_ok ''tank'', Fs_delete env_ok ''tank'']"
  have p: "run_pre ?ops initial_state"
    by (simp add: scan_names_fresh_def fs_names_def op_defs state_defs accessor_defs example_defs)
  have "\<exists>s'. run ?ops initial_state = Return s' \<and> fs_names s' = [''pool'']"
    by (simp add: fs_names_def op_defs state_defs accessor_defs example_defs)
  then obtain s' where r: "run ?ops initial_state = Return s'" and n: "fs_names s' = [''pool'']"
    by blast
  have m: "''tank'' \<in> set (fs_names tank_state)"
    by (simp add: fs_names_def example_defs)
  have u: "names_unique tank_state"
    by (simp add: names_unique_def fs_names_def example_defs)
  note a = registry_names_unique [of tank_state "Fs_create env_ok ''tank''" tank_state ?ops s'
      "''tank''" env_ok]
  have c: "efs_fs_create env_ok ''tank'' tank_state = Return (- EEXIST, tank_state)"
    using a [THEN conjunct2, THEN conjunct2] m by blast
  have o: "apply_op (Fs_create env_ok ''tank'') tank_state = Return tank_state"
    using c by simp
  have 1: "names_unique s'"
    using a [THEN conjunct2, THEN conjunct1] p r by blast
  from p r n 1 u o m c show ?thesis by blast
qed

text \<open>
  The claim as the spec states it has startup loading keep the names unique by
  itself. A namespace store that enumerates the name \<open>tank\<close> twice leaves two nodes
  of that name on the list.
\<close>

theorem startup_loading_duplicates:
  "names_unique initial_state \<and>
   run [Fs_init env_scan_twice] initial_state =
     Return (snd (efs_fs_init env_scan_twice initial_state)) \<and>
   fs_names (snd (efs_fs_init env_scan_twice initial_state)) = [''tank'', ''tank''] \<and>
   \<not> names_unique (snd (efs_fs_init env_scan_twice initial_state))"
  by (simp add: names_unique_def fs_names_def efs_fs_init_def ns_scan_def fs_ns_scan_cb_def
      state_defs example_defs)

end
